theory Spec2Isabelle
  imports Complex_Main
begin

section \<open>av1transcoder/argument\_parser.py: constrained values and configuration derivation\<close>

text \<open>
  A shallow embedding of \<^verbatim>\<open>src/av1transcoder/argument_parser.py\<close>: the three
  self-validating number classes, the \<^verbatim>\<open>CropValues\<close> named tuple, the namespace
  returned by the argument parser and the post-parse pass of \<^verbatim>\<open>parse_args\<close>.
  Python's unbounded integers are \<open>int\<close>; a raised exception is the \<open>Inl\<close> branch of
  a sum; the \<^verbatim>\<open>itertools\<close> objects the namespace ends up holding are values of a
  datatype of iterators with an explicit \<^verbatim>\<open>__next__\<close>.
\<close>

subsection \<open>Values and exceptions\<close>

text \<open>
  A Python float is one of the finite doubles, an infinity or NaN. Comparison of floats
  is exact, so a finite float is modelled by the real number it denotes; every double is
  such a value, hence a statement about all \<open>pyfloat\<close> covers every float.
\<close>

datatype pyfloat = Finite real | PosInf | NegInf | NaN

text \<open>\<^verbatim>\<open>0 < new\<close> and \<^verbatim>\<open>new <= 1\<close> on a float: every comparison with NaN is false.\<close>

fun float_gt_zero :: "pyfloat \<Rightarrow> bool" where
  "float_gt_zero (Finite r) = (0 < r)"
| "float_gt_zero PosInf = True"
| "float_gt_zero NegInf = False"
| "float_gt_zero NaN = False"

fun float_le_one :: "pyfloat \<Rightarrow> bool" where
  "float_le_one (Finite r) = (r \<le> 1)"
| "float_le_one PosInf = False"
| "float_le_one NegInf = True"
| "float_le_one NaN = False"

text \<open>
  The exceptions of this module. A \<^verbatim>\<open>ValueError\<close> carries the fixed part of its
  message and the offending number (the \<^verbatim>\<open>Got {new}.\<close> of the f-string);
  \<^verbatim>\<open>TypeError\<close> is what a named tuple raises when it is not given one value per field.
\<close>

datatype got = GotInt int | GotFloat pyfloat

datatype error = ValueError string got | TypeError

subsection \<open>The constrained scalar classes (lines 32--56)\<close>

definition NonNegativeInt :: "int \<Rightarrow> error + int" where
  "NonNegativeInt n =
     (let new = n
      in if new < 0
         then Inl (ValueError ''Invalid number. Expected a non-negative integer.'' (GotInt new))
         else Inr new)"

definition PositiveInt :: "int \<Rightarrow> error + int" where
  "PositiveInt n =
     (let new = n
      in if new \<le> 0
         then Inl (ValueError ''Invalid number. Expected a positive integer.'' (GotInt new))
         else Inr new)"

definition NormalizedFloat :: "pyfloat \<Rightarrow> error + pyfloat" where
  "NormalizedFloat f =
     (let new = f
      in if \<not> (float_gt_zero new \<and> float_le_one new)
         then Inl (ValueError
                ''Invalid number. Expected a floating point value in the interval (0, 1].''
                (GotFloat new))
         else Inr new)"

subsection \<open>CropValues (lines 59--72)\<close>

text \<open>
  The named tuple has the fields \<^verbatim>\<open>top, bottom, left, right\<close>; the first is
  written \<open>top'\<close> here, \<open>top\<close> being the greatest element of an order in HOL. The field
  annotations are not enforced by Python: the generated constructor stores whatever four
  values it is given.
\<close>

record CropValues =
  top' :: int
  bottom :: int
  left :: int
  right :: int

definition CropValues_new :: "int \<Rightarrow> int \<Rightarrow> int \<Rightarrow> int \<Rightarrow> CropValues" where
  "CropValues_new t b l r = \<lparr>top' = t, bottom = b, left = l, right = r\<rparr>"

text \<open>\<^verbatim>\<open>CropValues(*values)\<close>: one positional argument per element of \<open>values\<close>.\<close>

fun CropValues_star :: "int list \<Rightarrow> error + CropValues" where
  "CropValues_star [t, b, l, r] = Inr (CropValues_new t b l r)"
| "CropValues_star _ = Inl TypeError"

definition crop_height :: "CropValues \<Rightarrow> int" where
  "crop_height self = top' self + bottom self"

definition crop_width :: "CropValues \<Rightarrow> int" where
  "crop_width self = left self + right self"

subsection \<open>Iterators\<close>

text \<open>
  The objects \<^verbatim>\<open>parse_args\<close> stores in \<^verbatim>\<open>crop_values\<close>: an iterator over a
  list, \<^verbatim>\<open>itertools.repeat(x)\<close>, \<^verbatim>\<open>itertools.repeat(x, times=n)\<close> and
  \<^verbatim>\<open>itertools.chain(a, b)\<close>. \<open>iter_next\<close> is \<^verbatim>\<open>__next__\<close>: the element and the
  advanced iterator, or \<open>None\<close> for \<^verbatim>\<open>StopIteration\<close>.
\<close>

datatype 'a iter =
    ListIter "'a list"
  | Repeat 'a
  | RepeatTimes 'a nat
  | Chain "'a iter" "'a iter"

fun iter_next :: "'a iter \<Rightarrow> ('a \<times> 'a iter) option" where
  "iter_next (ListIter []) = None"
| "iter_next (ListIter (x # xs)) = Some (x, ListIter xs)"
| "iter_next (Repeat x) = Some (x, Repeat x)"
| "iter_next (RepeatTimes x 0) = None"
| "iter_next (RepeatTimes x (Suc n)) = Some (x, RepeatTimes x n)"
| "iter_next (Chain a b) =
     (case iter_next a of
        Some (x, a') \<Rightarrow> Some (x, Chain a' b)
      | None \<Rightarrow> iter_next b)"

text \<open>
  \<^verbatim>\<open>list(itertools.islice(it, n))\<close>: the first \<open>n\<close> elements, fewer when the iterator
  stops earlier. This is the truncation to a number of input files.
\<close>

fun islice :: "'a iter \<Rightarrow> nat \<Rightarrow> 'a list" where
  "islice it 0 = []"
| "islice it (Suc n) =
     (case iter_next it of
        None \<Rightarrow> []
      | Some (x, it') \<Rightarrow> x # islice it' n)"

text \<open>The element a consumer receives at position \<open>i\<close>, \<open>None\<close> when the iterator has stopped.\<close>

fun iter_nth :: "'a iter \<Rightarrow> nat \<Rightarrow> 'a option" where
  "iter_nth it 0 = map_option fst (iter_next it)"
| "iter_nth it (Suc i) =
     (case iter_next it of
        None \<Rightarrow> None
      | Some (x, it') \<Rightarrow> iter_nth it' i)"

text \<open>\<^verbatim>\<open>zip(files, it)\<close>, the use the source's comment names for the iterator.\<close>

fun zip_iter :: "'b list \<Rightarrow> 'a iter \<Rightarrow> ('b \<times> 'a) list" where
  "zip_iter [] it = []"
| "zip_iter (f # fs) it =
     (case iter_next it of
        None \<Rightarrow> []
      | Some (x, it') \<Rightarrow> (f, x) # zip_iter fs it')"

subsection \<open>The namespace (lines 75--103 and the parser's arguments, lines 136--283)\<close>

text \<open>
  One field per \<^verbatim>\<open>add_argument\<close> of \<^verbatim>\<open>_generate_argument_parser\<close>, in the order of
  the \<^verbatim>\<open>Namespace\<close> class. The class also lists \<^verbatim>\<open>max_scene_length\<close>, whose argument
  is commented out in the parser, so the parsed namespace has no such attribute. A path
  is the string it was built from. \<^verbatim>\<open>crop_values\<close> changes its type in
  \<^verbatim>\<open>parse_args\<close> (a list of lists of numbers before, an iterator after), so its type is
  a parameter of the record.
\<close>

record 'c Namespace =
  input_files :: "string list"
  output_dir :: "string option"
  temp_dir :: "string option"
  keep_temp :: bool
  force_overwrite :: bool
  scene_cut_threshold :: pyfloat
  min_scene_length :: int
  enable_single_pass_encode :: bool
  encoder_parameters :: string
  global_parameters :: string
  max_concurrent_encodes :: int
  deinterlace :: bool
  dump_commands :: string
  limit_encodes :: "int option"
  crop_values :: 'c
  verbose :: bool
  cutelog_integration :: bool
  ffmpeg :: string
  ffprobe :: string
  ffmpeg_base :: "string option"

text \<open>\<^verbatim>\<open>args.crop_values = v\<close>: the attribute is rebound, every other attribute stays.\<close>

definition set_crop_values :: "'c Namespace \<Rightarrow> 'd \<Rightarrow> 'd Namespace" where
  "set_crop_values args v =
     \<lparr>input_files = input_files args,
      output_dir = output_dir args,
      temp_dir = temp_dir args,
      keep_temp = keep_temp args,
      force_overwrite = force_overwrite args,
      scene_cut_threshold = scene_cut_threshold args,
      min_scene_length = min_scene_length args,
      enable_single_pass_encode = enable_single_pass_encode args,
      encoder_parameters = encoder_parameters args,
      global_parameters = global_parameters args,
      max_concurrent_encodes = max_concurrent_encodes args,
      deinterlace = deinterlace args,
      dump_commands = dump_commands args,
      limit_encodes = limit_encodes args,
      crop_values = v,
      verbose = verbose args,
      cutelog_integration = cutelog_integration args,
      ffmpeg = ffmpeg args,
      ffprobe = ffprobe args,
      ffmpeg_base = ffmpeg_base args\<rparr>"

subsection \<open>parse\_args (lines 287--308)\<close>

text \<open>
  The list comprehension of line 299: each raw value list is packed in order, and the
  first exception ends the comprehension.
\<close>

fun pack_crop_values :: "int list list \<Rightarrow> error + CropValues list" where
  "pack_crop_values [] = Inr []"
| "pack_crop_values (values # rest) =
     (case CropValues_star values of
        Inl e \<Rightarrow> Inl e
      | Inr c \<Rightarrow>
          (case pack_crop_values rest of
             Inl e \<Rightarrow> Inl e
           | Inr cs \<Rightarrow> Inr (c # cs)))"

text \<open>
  \<open>parse_args\<close> from the namespace that \<^verbatim>\<open>_generate_argument_parser().parse_args()\<close>
  returned (line 293) to the namespace it returns. The elements of the iterator are
  \<open>Some c\<close> for a \<^verbatim>\<open>CropValues\<close> and \<open>None\<close> for Python's \<^verbatim>\<open>None\<close>.
  \<^verbatim>\<open>crop_values[-1]\<close> is read in the branch where the list is not empty.
\<close>

definition parse_args ::
  "int list list Namespace \<Rightarrow> error + CropValues option iter Namespace" where
  "parse_args raw =
     (let args = (if dump_commands raw \<noteq> ''no'' \<or> limit_encodes raw \<noteq> None
                  then raw\<lparr>keep_temp := True\<rparr>
                  else raw)
      in case pack_crop_values (crop_values args) of
           Inl e \<Rightarrow> Inl e
         | Inr crops \<Rightarrow>
             (if crops \<noteq> []
              then Inr (set_crop_values args
                          (Chain (ListIter (map Some crops)) (Repeat (Some (last crops)))))
              else Inr (set_crop_values args
                          (RepeatTimes None (length (input_files args))))))"

text \<open>
  The argument parser's own contract for the raw namespace: every \<^verbatim>\<open>--crop\<close>
  occurrence holds four values (\<^verbatim>\<open>nargs=4\<close>), each one accepted by
  \<^verbatim>\<open>NonNegativeInt\<close> (\<^verbatim>\<open>type=NonNegativeInt\<close>), and there is at least one input file
  (\<^verbatim>\<open>nargs="+"\<close>).
\<close>

definition well_formed_raw :: "int list list Namespace \<Rightarrow> bool" where
  "well_formed_raw raw =
     (list_all (\<lambda>values. length values = 4 \<and> list_all (\<lambda>v. NonNegativeInt v = Inr v) values)
        (crop_values raw)
      \<and> input_files raw \<noteq> [])"

text \<open>The raw value list argparse stored for a crop specification.\<close>

definition crop_tuple :: "CropValues \<Rightarrow> int list" where
  "crop_tuple c = [top' c, bottom c, left c, right c]"

text \<open>
  The indexing function of the specification's design notes, in its words:
  \<^verbatim>\<open>crop_for(i) = specs[min(i, len(specs)-1)]\<close>, with Python's list indexing (a negative
  index counts from the end, an index out of range raises).
\<close>

definition py_getitem :: "'a list \<Rightarrow> int \<Rightarrow> 'a option" where
  "py_getitem xs i =
     (let n = int (length xs); j = (if i < 0 then n + i else i)
      in if 0 \<le> j \<and> j < n then Some (xs ! nat j) else None)"

definition crop_for :: "'a list \<Rightarrow> nat \<Rightarrow> 'a option" where
  "crop_for specs i = py_getitem specs (min (int i) (int (length specs) - 1))"

text \<open>
  The namespace the parser returns for a command line that gives only input files and
  \<^verbatim>\<open>--crop\<close> occurrences: every other attribute holds the default declared in
  \<^verbatim>\<open>_generate_argument_parser\<close> (\<open>False\<close> for a \<^verbatim>\<open>store_true\<close> flag, \<open>None\<close> where
  no default is given). The default threshold is the double written \<^verbatim>\<open>0.3\<close>.
\<close>

definition parsed_defaults :: "string list \<Rightarrow> int list list \<Rightarrow> int list list Namespace" where
  "parsed_defaults files crops =
     \<lparr>input_files = files,
      output_dir = None,
      temp_dir = None,
      keep_temp = False,
      force_overwrite = False,
      scene_cut_threshold = Finite (5404319552844595 / 18014398509481984),
      min_scene_length = 30,
      enable_single_pass_encode = False,
      encoder_parameters =
        ''-pix_fmt yuv420p10le -cpu-used 4 -crf 15 -frame-parallel 0 -threads 1 -auto-alt-ref 1 '' @
        ''-lag-in-frames 8 -enable-cdef 1 -enable-global-motion 1 -enable-intrabc 1'',
      global_parameters = [],
      max_concurrent_encodes = 8,
      deinterlace = False,
      dump_commands = ''no'',
      limit_encodes = None,
      crop_values = crops,
      verbose = False,
      cutelog_integration = False,
      ffmpeg = ''ffmpeg'',
      ffprobe = ''ffprobe'',
      ffmpeg_base = None\<rparr>"

section \<open>Iterators: what a consumer observes\<close>

lemma islice_ListIter: "islice (ListIter xs) n = take n xs"
  by (induction xs arbitrary: n) (case_tac n; simp)+

lemma islice_Repeat: "islice (Repeat x) n = replicate n x"
  by (induction n) simp_all

lemma islice_RepeatTimes: "islice (RepeatTimes x m) n = replicate (min n m) x"
  by (induction m arbitrary: n) (case_tac n; simp)+

text \<open>A chain yields its first iterator's elements and then, if asked for more, the second's.\<close>

lemma islice_Chain: "islice (Chain a b) n = islice a n @ islice b (n - length (islice a n))"
proof (induction n arbitrary: a)
  case 0
  show ?case by simp
next
  case (Suc n)
  show ?case
  proof (cases "iter_next a")
    case None
    then show ?thesis by simp
  next
    case (Some p)
    obtain x a' where "p = (x, a')" by (cases p)
    with Some Suc[of a'] show ?thesis by simp
  qed
qed

lemma zip_iter_islice: "zip_iter fs it = zip fs (islice it (length fs))"
  by (induction fs arbitrary: it) (auto split: option.splits)

lemma iter_nth_Repeat: "iter_nth (Repeat y) i = Some y"
  by (induction i) simp_all

lemma iter_nth_RepeatTimes: "iter_nth (RepeatTimes x n) i = (if i < n then Some x else None)"
  by (induction n arbitrary: i) (case_tac i; simp)+

lemma iter_nth_chain_repeat:
  "iter_nth (Chain (ListIter xs) (Repeat y)) i = Some (if i < length xs then xs ! i else y)"
proof (induction xs arbitrary: i)
  case Nil
  show ?case by (cases i) (simp_all add: iter_nth_Repeat)
next
  case (Cons x xs)
  show ?case by (cases i) (simp_all add: Cons.IH)
qed

lemma nth_prefix_then_last:
  "i < N \<Longrightarrow> cs \<noteq> [] \<Longrightarrow>
   (map Some (take N cs) @ replicate (N - length cs) (Some (last cs))) ! i =
     Some (if i < length cs then cs ! i else last cs)"
  by (simp add: nth_append)

section \<open>The derivation step\<close>

text \<open>Packing succeeds exactly as long as every raw value list has four elements.\<close>

lemma pack_ok:
  "list_all (\<lambda>values. length values = 4) raws \<Longrightarrow>
   \<exists>cs. pack_crop_values raws = Inr cs \<and> length cs = length raws"
proof (induction raws)
  case Nil
  show ?case by simp
next
  case (Cons v rest)
  then obtain cs where cs: "pack_crop_values rest = Inr cs" "length cs = length rest"
    by auto
  from Cons.prems have "length v = 4" by simp
  then obtain t b l r where "v = [t, b, l, r]"
    by (auto simp: length_Suc_conv numeral_eq_Suc)
  with cs show ?case by simp
qed

lemma pack_tuples: "pack_crop_values (map crop_tuple cs) = Inr cs"
  by (induction cs) (simp_all add: crop_tuple_def CropValues_new_def)

lemma well_formed_arity:
  "well_formed_raw raw \<Longrightarrow> list_all (\<lambda>values. length values = 4) (crop_values raw)"
  by (auto simp: well_formed_raw_def list_all_iff)

lemma parse_args_total:
  assumes "list_all (\<lambda>values. length values = 4) (crop_values raw)"
  shows "\<exists>out. parse_args raw = Inr out"
proof -
  let ?args = "if dump_commands raw \<noteq> ''no'' \<or> limit_encodes raw \<noteq> None
               then raw\<lparr>keep_temp := True\<rparr> else raw"
  have "crop_values ?args = crop_values raw" by simp
  with pack_ok[OF assms] obtain cs where "pack_crop_values (crop_values ?args) = Inr cs"
    by auto
  then show ?thesis
    unfolding parse_args_def Let_def by (simp del: if_split)
qed

lemma parse_args_keep_temp:
  "parse_args raw = Inr out \<Longrightarrow>
   keep_temp out = (dump_commands raw \<noteq> ''no'' \<or> limit_encodes raw \<noteq> None \<or> keep_temp raw)"
  by (auto simp: parse_args_def Let_def set_crop_values_def split: sum.splits if_splits)

lemma parse_args_tuples:
  "crop_values raw = map crop_tuple cs \<Longrightarrow> cs \<noteq> [] \<Longrightarrow>
   \<exists>out. parse_args raw = Inr out \<and>
     crop_values out = Chain (ListIter (map Some cs)) (Repeat (Some (last cs)))"
  by (simp add: parse_args_def Let_def pack_tuples set_crop_values_def)

lemma parse_args_no_crop:
  "crop_values raw = [] \<Longrightarrow>
   \<exists>out. parse_args raw = Inr out \<and>
     crop_values out = RepeatTimes None (length (input_files raw))"
  by (simp add: parse_args_def Let_def set_crop_values_def)

lemma set_crop_values_frame:
  "input_files (set_crop_values a v) = input_files a"
  "output_dir (set_crop_values a v) = output_dir a"
  "temp_dir (set_crop_values a v) = temp_dir a"
  "keep_temp (set_crop_values a v) = keep_temp a"
  "force_overwrite (set_crop_values a v) = force_overwrite a"
  "scene_cut_threshold (set_crop_values a v) = scene_cut_threshold a"
  "min_scene_length (set_crop_values a v) = min_scene_length a"
  "enable_single_pass_encode (set_crop_values a v) = enable_single_pass_encode a"
  "encoder_parameters (set_crop_values a v) = encoder_parameters a"
  "global_parameters (set_crop_values a v) = global_parameters a"
  "max_concurrent_encodes (set_crop_values a v) = max_concurrent_encodes a"
  "deinterlace (set_crop_values a v) = deinterlace a"
  "dump_commands (set_crop_values a v) = dump_commands a"
  "limit_encodes (set_crop_values a v) = limit_encodes a"
  "crop_values (set_crop_values a v) = v"
  "verbose (set_crop_values a v) = verbose a"
  "cutelog_integration (set_crop_values a v) = cutelog_integration a"
  "ffmpeg (set_crop_values a v) = ffmpeg a"
  "ffprobe (set_crop_values a v) = ffprobe a"
  "ffmpeg_base (set_crop_values a v) = ffmpeg_base a"
  by (simp_all add: set_crop_values_def)

text \<open>Whatever \<open>parse_args\<close> returns is the raw namespace with two attributes rebound.\<close>

lemma parse_args_shape:
  assumes "parse_args raw = Inr out"
  shows "\<exists>k v. out = set_crop_values (raw\<lparr>keep_temp := k\<rparr>) v"
proof -
  have r: "raw = raw\<lparr>keep_temp := keep_temp raw\<rparr>" by simp
  from assms show ?thesis
    unfolding parse_args_def Let_def
    apply (simp split: sum.splits if_splits del: if_split)
    using r by metis+
qed

text \<open>
  Packing keeps the values: when every raw value was accepted by \<^verbatim>\<open>NonNegativeInt\<close>,
  no packed crop specification has a negative component.
\<close>

lemma pack_non_negative:
  "list_all (\<lambda>values. length values = 4 \<and> list_all (\<lambda>v. NonNegativeInt v = Inr v) values) raws
   \<Longrightarrow> \<exists>cs. pack_crop_values raws = Inr cs \<and>
          (\<forall>c \<in> set cs. 0 \<le> top' c \<and> 0 \<le> bottom c \<and> 0 \<le> left c \<and> 0 \<le> right c)"
proof (induction raws)
  case Nil
  show ?case by simp
next
  case (Cons v rest)
  then obtain cs where cs: "pack_crop_values rest = Inr cs"
    "\<forall>c \<in> set cs. 0 \<le> top' c \<and> 0 \<le> bottom c \<and> 0 \<le> left c \<and> 0 \<le> right c"
    by auto
  from Cons.prems have "length v = 4" by simp
  then obtain t b l r where v: "v = [t, b, l, r]"
    by (auto simp: length_Suc_conv numeral_eq_Suc)
  from Cons.prems v have "0 \<le> t \<and> 0 \<le> b \<and> 0 \<le> l \<and> 0 \<le> r"
    by (auto simp: NonNegativeInt_def Let_def split: if_splits)
  with cs v show ?case by (simp add: CropValues_new_def)
qed

lemma parse_args_packed:
  assumes "pack_crop_values (crop_values raw) = Inr cs"
  shows "\<exists>out. parse_args raw = Inr out \<and>
           crop_values out =
             (if cs \<noteq> [] then Chain (ListIter (map Some cs)) (Repeat (Some (last cs)))
              else RepeatTimes None (length (input_files raw)))"
proof -
  let ?args = "if dump_commands raw \<noteq> ''no'' \<or> limit_encodes raw \<noteq> None
               then raw\<lparr>keep_temp := True\<rparr> else raw"
  have "crop_values ?args = crop_values raw" "input_files ?args = input_files raw"
    by simp_all
  with assms show ?thesis
    unfolding parse_args_def Let_def
    by (simp add: set_crop_values_frame del: if_split)
qed

lemma crop_for_nonempty:
  "specs \<noteq> [] \<Longrightarrow>
   crop_for specs i = Some (if i < length specs then specs ! i else last specs)"
  by (cases "i < length specs")
     (auto simp: crop_for_def py_getitem_def Let_def min_def last_conv_nth nat_diff_distrib'
           not_less intro: arg_cong[where f="(!) specs"])

section \<open>The claims\<close>

text \<open>
  Claim C1. For a non-empty list of crop specifications \<open>cs\<close> (the raw namespace holds
  their value lists, in order) \<open>parse_args\<close> returns, and the crop-value iterator of the
  returned namespace, truncated to any length \<open>N\<close>, is the first \<open>N\<close> specifications
  followed by the last specification up to length \<open>N\<close>: position \<open>i < N\<close> holds
  specification \<open>i\<close> when there is one and the last specification otherwise. Paired with
  the input files by \<^verbatim>\<open>zip\<close> it gives each file the element at its position.
\<close>

theorem crop_sequence_tail_repeats:
  assumes "cs \<noteq> []" and "crop_values raw = map crop_tuple cs"
  shows "\<exists>out. parse_args raw = Inr out \<and>
           islice (crop_values out) N =
             map Some (take N cs) @ replicate (N - length cs) (Some (last cs)) \<and>
           (\<forall>i<N. islice (crop_values out) N ! i =
                     Some (if i < length cs then cs ! i else last cs)) \<and>
           zip_iter (input_files raw) (crop_values out) =
             zip (input_files raw)
               (map Some (take (length (input_files raw)) cs) @
                replicate (length (input_files raw) - length cs) (Some (last cs)))"
proof -
  from parse_args_tuples[OF assms(2) assms(1)] obtain out where
    out: "parse_args raw = Inr out"
      "crop_values out = Chain (ListIter (map Some cs)) (Repeat (Some (last cs)))" by blast
  have sl: "islice (crop_values out) n =
      map Some (take n cs) @ replicate (n - length cs) (Some (last cs))" for n
    by (simp add: out(2) islice_Chain islice_ListIter islice_Repeat take_map min_def)
  have ix: "\<forall>i<N. islice (crop_values out) N ! i =
                     Some (if i < length cs then cs ! i else last cs)"
    using nth_prefix_then_last[OF _ assms(1)] by (simp only: sl) blast
  from parse_args_shape[OF out(1)] have "input_files out = input_files raw"
    by (auto simp: set_crop_values_frame)
  have "zip_iter (input_files raw) (crop_values out) =
          zip (input_files raw) (islice (crop_values out) (length (input_files raw)))"
    by (rule zip_iter_islice)
  with sl[of N] sl[of "length (input_files raw)"] ix out(1) show ?thesis by auto
qed

theorem crop_sequence_tail_repeats_witness:
  "\<exists>out. parse_args (parsed_defaults [''a'', ''b'', ''c'', ''d'', ''e'']
                       [[1, 2, 3, 4], [5, 6, 7, 8]]) = Inr out \<and>
     islice (crop_values out) (length [''a'', ''b'', ''c'', ''d'', ''e'']) =
       [Some (CropValues_new 1 2 3 4), Some (CropValues_new 5 6 7 8),
        Some (CropValues_new 5 6 7 8), Some (CropValues_new 5 6 7 8),
        Some (CropValues_new 5 6 7 8)]"
proof -
  have h1: "[CropValues_new 1 2 3 4, CropValues_new 5 6 7 8] \<noteq> []" by simp
  have h2: "crop_values (parsed_defaults [''a'', ''b'', ''c'', ''d'', ''e'']
                          [[1, 2, 3, 4], [5, 6, 7, 8]]) =
            map crop_tuple [CropValues_new 1 2 3 4, CropValues_new 5 6 7 8]"
    by (simp add: parsed_defaults_def crop_tuple_def CropValues_new_def)
  from crop_sequence_tail_repeats[OF h1 h2, of 5] show ?thesis
    by (auto simp: numeral_eq_Suc)
qed

text \<open>
  Claim C2. When \<^verbatim>\<open>dump_commands\<close> is not \<^verbatim>\<open>"no"\<close> or \<^verbatim>\<open>limit_encodes\<close> is set,
  \<open>parse_args\<close> returns a namespace whose \<^verbatim>\<open>keep_temp\<close> is true, whatever value
  \<^verbatim>\<open>keep_temp\<close> had in the parser's namespace.
\<close>

theorem implied_keep_temp:
  assumes "well_formed_raw raw"
    and "dump_commands raw \<noteq> ''no'' \<or> limit_encodes raw \<noteq> None"
  shows "\<exists>out. parse_args raw = Inr out \<and> keep_temp out"
proof -
  from parse_args_total[OF well_formed_arity[OF assms(1)]]
  obtain out where out: "parse_args raw = Inr out" by blast
  from parse_args_keep_temp[OF out] assms(2) have "keep_temp out" by blast
  with out show ?thesis by blast
qed

theorem implied_keep_temp_witness:
  "(\<not> keep_temp ((parsed_defaults [''a.mkv''] [])\<lparr>dump_commands := ''only''\<rparr>) \<and>
    (\<exists>out. parse_args ((parsed_defaults [''a.mkv''] [])\<lparr>dump_commands := ''only''\<rparr>) = Inr out
        \<and> keep_temp out)) \<and>
   (\<not> keep_temp ((parsed_defaults [''a.mkv''] [])\<lparr>limit_encodes := Some 3\<rparr>) \<and>
    (\<exists>out. parse_args ((parsed_defaults [''a.mkv''] [])\<lparr>limit_encodes := Some 3\<rparr>) = Inr out
        \<and> keep_temp out))"
  using implied_keep_temp[of "(parsed_defaults [''a.mkv''] [])\<lparr>dump_commands := ''only''\<rparr>"]
    implied_keep_temp[of "(parsed_defaults [''a.mkv''] [])\<lparr>limit_encodes := Some 3\<rparr>"]
  by (simp add: parsed_defaults_def well_formed_raw_def)

text \<open>
  Claim C3. With no \<^verbatim>\<open>--crop\<close> occurrence and \<open>N\<close> input files, \<open>parse_args\<close> returns a
  namespace whose crop-value iterator yields exactly \<open>N\<close> times \<^verbatim>\<open>None\<close>: truncated to \<open>N\<close>
  it is \<open>N\<close> markers, truncated to any length \<open>m\<close> it never has more than \<open>N\<close> elements,
  and at position \<open>N\<close> it has stopped. (This holds for every \<open>N\<close>, also for \<open>N = 0\<close>.)
\<close>

theorem no_crop_sequence_finite:
  assumes "crop_values raw = []" and "length (input_files raw) = N"
  shows "\<exists>out. parse_args raw = Inr out \<and>
           islice (crop_values out) N = replicate N None \<and>
           (\<forall>m. islice (crop_values out) m = replicate (min m N) None) \<and>
           iter_nth (crop_values out) N = None"
proof -
  from parse_args_no_crop[OF assms(1)] assms(2) obtain out where
    out: "parse_args raw = Inr out" "crop_values out = RepeatTimes None N" by auto
  have "islice (crop_values out) N = replicate N None"
    and "\<forall>m. islice (crop_values out) m = replicate (min m N) None"
    and "iter_nth (crop_values out) N = None"
    by (simp_all add: out(2) islice_RepeatTimes iter_nth_RepeatTimes)
  with out(1) show ?thesis by blast
qed

theorem no_crop_sequence_finite_witness:
  "\<exists>out. parse_args (parsed_defaults [''a.mkv'', ''b.mkv'', ''c.mkv''] []) = Inr out \<and>
     islice (crop_values out) 3 = [None, None, None] \<and>
     islice (crop_values out) 7 = [None, None, None] \<and>
     iter_nth (crop_values out) 3 = None"
proof -
  have h: "crop_values (parsed_defaults [''a.mkv'', ''b.mkv'', ''c.mkv''] []) = []"
    "length (input_files (parsed_defaults [''a.mkv'', ''b.mkv'', ''c.mkv''] [])) = 3"
    by (simp_all add: parsed_defaults_def)
  from no_crop_sequence_finite[OF h] obtain out where
    o: "parse_args (parsed_defaults [''a.mkv'', ''b.mkv'', ''c.mkv''] []) = Inr out"
      "islice (crop_values out) 3 = replicate 3 None"
      "\<forall>m. islice (crop_values out) m = replicate (min m 3) None"
      "iter_nth (crop_values out) 3 = None" by blast
  from o(3) have "islice (crop_values out) 7 = replicate (min 7 3) None" by blast
  with o show ?thesis by (simp add: numeral_eq_Suc)
qed

text \<open>
  Claim C4. \<^verbatim>\<open>NonNegativeInt(n)\<close> returns (the number \<open>n\<close>) exactly when \<open>n \<ge> 0\<close>,
  \<^verbatim>\<open>PositiveInt(n)\<close> exactly when \<open>n > 0\<close>, and \<^verbatim>\<open>NormalizedFloat(f)\<close> exactly when
  \<open>f\<close> is a finite float with \<open>0 < f \<le> 1\<close>; in every other case the construction raises a
  \<^verbatim>\<open>ValueError\<close> that names the rejected number, and no value is produced.
\<close>

theorem constrained_scalars_construct:
  "(NonNegativeInt n = Inr n \<longleftrightarrow> 0 \<le> n) \<and>
   (PositiveInt n = Inr n \<longleftrightarrow> 0 < n) \<and>
   (NormalizedFloat f = Inr f \<longleftrightarrow> (\<exists>r. f = Finite r \<and> 0 < r \<and> r \<le> 1)) \<and>
   ((\<exists>msg. NonNegativeInt n = Inl (ValueError msg (GotInt n))) \<longleftrightarrow> \<not> 0 \<le> n) \<and>
   ((\<exists>msg. PositiveInt n = Inl (ValueError msg (GotInt n))) \<longleftrightarrow> \<not> 0 < n) \<and>
   ((\<exists>msg. NormalizedFloat f = Inl (ValueError msg (GotFloat f))) \<longleftrightarrow>
      \<not> (\<exists>r. f = Finite r \<and> 0 < r \<and> r \<le> 1)) \<and>
   ((\<exists>v. NonNegativeInt n = Inr v) \<longleftrightarrow> 0 \<le> n) \<and>
   ((\<exists>v. PositiveInt n = Inr v) \<longleftrightarrow> 0 < n) \<and>
   ((\<exists>v. NormalizedFloat f = Inr v) \<longleftrightarrow> (\<exists>r. f = Finite r \<and> 0 < r \<and> r \<le> 1))"
proof -
  have fl: "(float_gt_zero f \<and> float_le_one f) = (\<exists>r. f = Finite r \<and> 0 < r \<and> r \<le> 1)"
    by (cases f) simp_all
  show ?thesis
    unfolding fl[symmetric]
    by (auto simp: NonNegativeInt_def PositiveInt_def NormalizedFloat_def Let_def)
qed

theorem constrained_scalars_construct_witness:
  "NonNegativeInt 0 = Inr 0 \<and> NonNegativeInt (- 3) \<noteq> Inr (- 3) \<and>
   PositiveInt 30 = Inr 30 \<and> PositiveInt 0 \<noteq> Inr 0 \<and>
   NormalizedFloat (Finite 1) = Inr (Finite 1) \<and>
   NormalizedFloat (Finite 0) \<noteq> Inr (Finite 0) \<and>
   NormalizedFloat NaN \<noteq> Inr NaN \<and>
   NormalizedFloat PosInf \<noteq> Inr PosInf"
  using constrained_scalars_construct[of 0 "Finite 1"]
    constrained_scalars_construct[of "- 3" "Finite 0"]
    constrained_scalars_construct[of 30 NaN]
    constrained_scalars_construct[of 0 PosInf]
  by simp

text \<open>
  Claim C5. For a non-empty list of crop specifications and every index \<open>i\<close>, the element
  at position \<open>i\<close> of the iterator built by \<open>parse_args\<close> (the chain of the specifications
  and the endless repetition of the last one) is the value of the indexing function
  \<^verbatim>\<open>crop_for(i) = specs[min(i, len(specs)-1)]\<close>, which is defined there.
\<close>

theorem crop_iterator_refines_crop_for:
  assumes "specs \<noteq> []" and "crop_values raw = map crop_tuple specs"
  shows "\<exists>out c. parse_args raw = Inr out \<and> crop_for specs i = Some c \<and>
           iter_nth (crop_values out) i = Some (Some c)"
proof -
  from parse_args_tuples[OF assms(2) assms(1)] obtain out where
    out: "parse_args raw = Inr out"
      "crop_values out = Chain (ListIter (map Some specs)) (Repeat (Some (last specs)))"
    by blast
  let ?c = "if i < length specs then specs ! i else last specs"
  have "crop_for specs i = Some ?c" by (rule crop_for_nonempty[OF assms(1)])
  moreover have "iter_nth (crop_values out) i = Some (Some ?c)"
    by (simp add: out(2) iter_nth_chain_repeat)
  ultimately show ?thesis using out(1) by blast
qed

theorem crop_iterator_refines_crop_for_witness:
  "\<exists>out c. parse_args (parsed_defaults [''a'', ''b'', ''c''] [[1, 2, 3, 4], [5, 6, 7, 8]]) = Inr out \<and>
     crop_for [CropValues_new 1 2 3 4, CropValues_new 5 6 7 8] 2 = Some c \<and>
     c = CropValues_new 5 6 7 8 \<and>
     iter_nth (crop_values out) 2 = Some (Some c)"
  using crop_iterator_refines_crop_for[of "[CropValues_new 1 2 3 4, CropValues_new 5 6 7 8]"
      "parsed_defaults [''a'', ''b'', ''c''] [[1, 2, 3, 4], [5, 6, 7, 8]]" 2]
  by (simp add: parsed_defaults_def crop_tuple_def CropValues_new_def crop_for_def py_getitem_def)

text \<open>
  Claim C6, as the code has it. The \<^verbatim>\<open>CropValues\<close> constructor validates nothing: from
  any four values it returns a crop specification that stores them unchanged. The
  out-of-range error belongs to the component type: constructing a negative value as a
  \<^verbatim>\<open>NonNegativeInt\<close> raises it. A crop specification built from four values that
  \<^verbatim>\<open>NonNegativeInt\<close> accepts holds no negative component, and so does every crop
  specification that the iterator returned by \<open>parse_args\<close> delivers for a well-formed
  raw namespace.
\<close>

theorem CropValues_components_validated_upstream:
  "(\<exists>c. CropValues_star [t, b, l, r] = Inr c \<and>
        top' c = t \<and> bottom c = b \<and> left c = l \<and> right c = r \<and>
        (NonNegativeInt t = Inr t \<and> NonNegativeInt b = Inr b \<and>
         NonNegativeInt l = Inr l \<and> NonNegativeInt r = Inr r \<longrightarrow>
           0 \<le> top' c \<and> 0 \<le> bottom c \<and> 0 \<le> left c \<and> 0 \<le> right c))
   \<and> (t < 0 \<or> b < 0 \<or> l < 0 \<or> r < 0 \<longrightarrow>
        (\<exists>n \<in> set [t, b, l, r]. n < 0 \<and>
           (\<exists>msg. NonNegativeInt n = Inl (ValueError msg (GotInt n)))))
   \<and> (well_formed_raw raw \<longrightarrow>
        (\<exists>out. parse_args raw = Inr out \<and>
           (\<forall>i c. iter_nth (crop_values out) i = Some (Some c) \<longrightarrow>
                  0 \<le> top' c \<and> 0 \<le> bottom c \<and> 0 \<le> left c \<and> 0 \<le> right c)))"
proof -
  have A: "\<exists>c. CropValues_star [t, b, l, r] = Inr c \<and>
        top' c = t \<and> bottom c = b \<and> left c = l \<and> right c = r \<and>
        (NonNegativeInt t = Inr t \<and> NonNegativeInt b = Inr b \<and>
         NonNegativeInt l = Inr l \<and> NonNegativeInt r = Inr r \<longrightarrow>
           0 \<le> top' c \<and> 0 \<le> bottom c \<and> 0 \<le> left c \<and> 0 \<le> right c)"
    by (auto simp: CropValues_new_def NonNegativeInt_def Let_def split: if_splits)
  have B: "t < 0 \<or> b < 0 \<or> l < 0 \<or> r < 0 \<longrightarrow>
        (\<exists>n \<in> set [t, b, l, r]. n < 0 \<and>
           (\<exists>msg. NonNegativeInt n = Inl (ValueError msg (GotInt n))))"
    by (auto simp: NonNegativeInt_def Let_def)
  have C: "\<exists>out. parse_args raw = Inr out \<and>
           (\<forall>i c. iter_nth (crop_values out) i = Some (Some c) \<longrightarrow>
                  0 \<le> top' c \<and> 0 \<le> bottom c \<and> 0 \<le> left c \<and> 0 \<le> right c)"
    if wf: "well_formed_raw raw"
  proof -
    from wf have "list_all (\<lambda>values. length values = 4 \<and>
        list_all (\<lambda>v. NonNegativeInt v = Inr v) values) (crop_values raw)"
      by (simp add: well_formed_raw_def)
    from pack_non_negative[OF this] obtain cs where
      cs: "pack_crop_values (crop_values raw) = Inr cs"
      "\<forall>c \<in> set cs. 0 \<le> top' c \<and> 0 \<le> bottom c \<and> 0 \<le> left c \<and> 0 \<le> right c"
      by blast
    from parse_args_packed[OF cs(1)] obtain out where
      out: "parse_args raw = Inr out"
      "crop_values out =
         (if cs \<noteq> [] then Chain (ListIter (map Some cs)) (Repeat (Some (last cs)))
          else RepeatTimes None (length (input_files raw)))" by blast
    have "0 \<le> top' c \<and> 0 \<le> bottom c \<and> 0 \<le> left c \<and> 0 \<le> right c"
      if y: "iter_nth (crop_values out) i = Some (Some c)" for i c
    proof (cases "cs = []")
      case True
      with y out(2) show ?thesis
        by (simp add: iter_nth_RepeatTimes split: if_splits)
    next
      case False
      with y out(2) have "c = (if i < length cs then cs ! i else last cs)"
        by (auto simp: iter_nth_chain_repeat split: if_splits)
      with False have "c \<in> set cs" by (auto split: if_splits)
      with cs(2) show ?thesis by blast
    qed
    with out(1) show ?thesis by blast
  qed
  from A B C show ?thesis by blast
qed

theorem CropValues_components_validated_upstream_witness:
  "(\<exists>n \<in> set [1, 2, - 3, 4 :: int]. n < 0 \<and>
      (\<exists>msg. NonNegativeInt n = Inl (ValueError msg (GotInt n)))) \<and>
   (\<exists>c. CropValues_star [0, 0, 8, 8] = Inr c \<and>
      0 \<le> top' c \<and> 0 \<le> bottom c \<and> 0 \<le> left c \<and> 0 \<le> right c) \<and>
   well_formed_raw (parsed_defaults [''a.mkv'', ''b.mkv''] [[0, 0, 8, 8]]) \<and>
   (\<exists>out c. parse_args (parsed_defaults [''a.mkv'', ''b.mkv''] [[0, 0, 8, 8]]) = Inr out \<and>
      iter_nth (crop_values out) 1 = Some (Some c) \<and>
      0 \<le> top' c \<and> 0 \<le> bottom c \<and> 0 \<le> left c \<and> 0 \<le> right c)"
proof -
  let ?raw = "parsed_defaults [''a.mkv'', ''b.mkv''] [[0, 0, 8, 8]]"
  have neg: "(1::int) < 0 \<or> (2::int) < 0 \<or> (- 3::int) < 0 \<or> (4::int) < 0" by simp
  from CropValues_components_validated_upstream[of 1 2 "- 3" 4 ?raw] neg
  have a: "\<exists>n \<in> set [1, 2, - 3, 4 :: int]. n < 0 \<and>
      (\<exists>msg. NonNegativeInt n = Inl (ValueError msg (GotInt n)))" by blast
  have ok: "NonNegativeInt 0 = Inr 0 \<and> NonNegativeInt 0 = Inr 0 \<and>
      NonNegativeInt 8 = Inr 8 \<and> NonNegativeInt 8 = Inr 8"
    by (simp add: NonNegativeInt_def)
  have wf: "well_formed_raw ?raw"
    by (simp add: well_formed_raw_def parsed_defaults_def NonNegativeInt_def)
  from CropValues_components_validated_upstream[of 0 0 8 8 ?raw] ok
  have b: "\<exists>c. CropValues_star [0, 0, 8, 8] = Inr c \<and>
      0 \<le> top' c \<and> 0 \<le> bottom c \<and> 0 \<le> left c \<and> 0 \<le> right c" by blast
  from CropValues_components_validated_upstream[of 0 0 8 8 ?raw] wf obtain out where
    out: "parse_args ?raw = Inr out"
    "\<forall>i c. iter_nth (crop_values out) i = Some (Some c) \<longrightarrow>
            0 \<le> top' c \<and> 0 \<le> bottom c \<and> 0 \<le> left c \<and> 0 \<le> right c" by blast
  have "parse_args ?raw = Inr (set_crop_values ?raw
          (Chain (ListIter [Some (CropValues_new 0 0 8 8)]) (Repeat (Some (CropValues_new 0 0 8 8)))))"
    by (simp add: parse_args_def parsed_defaults_def)
  with out(1) have "out = set_crop_values ?raw
          (Chain (ListIter [Some (CropValues_new 0 0 8 8)]) (Repeat (Some (CropValues_new 0 0 8 8))))"
    by simp
  then have "crop_values out =
      Chain (ListIter [Some (CropValues_new 0 0 8 8)]) (Repeat (Some (CropValues_new 0 0 8 8)))"
    by (simp only: set_crop_values_frame)
  then have n: "iter_nth (crop_values out) 1 = Some (Some (CropValues_new 0 0 8 8))"
    by (simp add: iter_nth_chain_repeat)
  with out(2) have "0 \<le> top' (CropValues_new 0 0 8 8) \<and> 0 \<le> bottom (CropValues_new 0 0 8 8) \<and>
      0 \<le> left (CropValues_new 0 0 8 8) \<and> 0 \<le> right (CropValues_new 0 0 8 8)" by blast
  with out(1) n a b wf show ?thesis by blast
qed

text \<open>
  Claim C6 as stated fails: \<^verbatim>\<open>CropValues(1, 2, -3, 4)\<close> does not raise, and the crop
  specification it returns has the negative component \<^verbatim>\<open>left = -3\<close>.
\<close>

theorem CropValues_accepts_negative:
  "CropValues_star [1, 2, - 3, 4] = Inr (CropValues_new 1 2 (- 3) 4) \<and>
   left (CropValues_new 1 2 (- 3) 4) = - 3 \<and>
   left (CropValues_new 1 2 (- 3) 4) < 0"
  by (simp add: CropValues_new_def)

text \<open>
  Claim C7. The crop specification constructed from four numbers \<open>t, b, l, r\<close> has
  \<^verbatim>\<open>crop_height\<close> \<open>= t + b\<close> and \<^verbatim>\<open>crop_width\<close> \<open>= l + r\<close>, each the sum of the two
  stored fields it is computed from. (No bound on the four numbers is needed, so this
  holds in particular for non-negative ones.)
\<close>

theorem crop_height_width_sums:
  "\<exists>c. CropValues_star [t, b, l, r] = Inr c \<and>
     crop_height c = t + b \<and> crop_width c = l + r \<and>
     crop_height c = top' c + bottom c \<and> crop_width c = left c + right c"
  by (simp add: crop_height_def crop_width_def CropValues_new_def)

theorem crop_height_width_sums_witness:
  "\<exists>c. CropValues_star [1, 2, 3, 4] = Inr c \<and> crop_height c = 3 \<and> crop_width c = 7"
  using crop_height_width_sums[of 1 2 3 4] by simp

text \<open>
  Claim C8. On a well-formed raw namespace (every crop value list has four elements, each
  accepted by \<^verbatim>\<open>NonNegativeInt\<close>, and there is an input file) \<open>parse_args\<close> returns a
  namespace: it raises no exception.
\<close>

theorem derivation_total:
  assumes "well_formed_raw raw"
  shows "(\<exists>out. parse_args raw = Inr out) \<and> (\<forall>e. parse_args raw \<noteq> Inl e)"
proof -
  from parse_args_total[OF well_formed_arity[OF assms]]
  obtain out where "parse_args raw = Inr out" by blast
  then show ?thesis by simp
qed

theorem derivation_total_witness:
  "well_formed_raw (parsed_defaults [''a.mkv'', ''b.mkv''] [[0, 0, 8, 8]]) \<and>
   (\<exists>out. parse_args (parsed_defaults [''a.mkv'', ''b.mkv''] [[0, 0, 8, 8]]) = Inr out) \<and>
   (\<forall>e. parse_args (parsed_defaults [''a.mkv'', ''b.mkv''] [[0, 0, 8, 8]]) \<noteq> Inl e)"
proof -
  have h: "well_formed_raw (parsed_defaults [''a.mkv'', ''b.mkv''] [[0, 0, 8, 8]])"
    by (simp add: well_formed_raw_def parsed_defaults_def NonNegativeInt_def)
  from derivation_total[OF h] h show ?thesis by blast
qed

text \<open>
  Claim C9. On a well-formed raw namespace \<open>parse_args\<close> returns a namespace in which
  every attribute other than \<^verbatim>\<open>keep_temp\<close> and \<^verbatim>\<open>crop_values\<close> has the value the
  parser produced.
\<close>

theorem derivation_frame:
  assumes "well_formed_raw raw"
  shows "\<exists>out. parse_args raw = Inr out \<and>
    input_files out = input_files raw \<and>
    output_dir out = output_dir raw \<and>
    temp_dir out = temp_dir raw \<and>
    force_overwrite out = force_overwrite raw \<and>
    scene_cut_threshold out = scene_cut_threshold raw \<and>
    min_scene_length out = min_scene_length raw \<and>
    enable_single_pass_encode out = enable_single_pass_encode raw \<and>
    encoder_parameters out = encoder_parameters raw \<and>
    global_parameters out = global_parameters raw \<and>
    max_concurrent_encodes out = max_concurrent_encodes raw \<and>
    deinterlace out = deinterlace raw \<and>
    dump_commands out = dump_commands raw \<and>
    limit_encodes out = limit_encodes raw \<and>
    verbose out = verbose raw \<and>
    cutelog_integration out = cutelog_integration raw \<and>
    ffmpeg out = ffmpeg raw \<and>
    ffprobe out = ffprobe raw \<and>
    ffmpeg_base out = ffmpeg_base raw"
proof -
  from parse_args_total[OF well_formed_arity[OF assms]]
  obtain out where out: "parse_args raw = Inr out" by blast
  from parse_args_shape[OF out] obtain k v where
    "out = set_crop_values (raw\<lparr>keep_temp := k\<rparr>) v" by blast
  then have "input_files out = input_files raw"
    "output_dir out = output_dir raw"
    "temp_dir out = temp_dir raw"
    "force_overwrite out = force_overwrite raw"
    "scene_cut_threshold out = scene_cut_threshold raw"
    "min_scene_length out = min_scene_length raw"
    "enable_single_pass_encode out = enable_single_pass_encode raw"
    "encoder_parameters out = encoder_parameters raw"
    "global_parameters out = global_parameters raw"
    "max_concurrent_encodes out = max_concurrent_encodes raw"
    "deinterlace out = deinterlace raw"
    "dump_commands out = dump_commands raw"
    "limit_encodes out = limit_encodes raw"
    "verbose out = verbose raw"
    "cutelog_integration out = cutelog_integration raw"
    "ffmpeg out = ffmpeg raw"
    "ffprobe out = ffprobe raw"
    "ffmpeg_base out = ffmpeg_base raw"
    by (simp_all add: set_crop_values_frame)
  with out show ?thesis by blast
qed

theorem derivation_frame_witness:
  "well_formed_raw ((parsed_defaults [''a.mkv''] [[0, 0, 8, 8]])
      \<lparr>dump_commands := ''yes'', verbose := True, output_dir := Some ''out''\<rparr>) \<and>
   (\<exists>out. parse_args ((parsed_defaults [''a.mkv''] [[0, 0, 8, 8]])
      \<lparr>dump_commands := ''yes'', verbose := True, output_dir := Some ''out''\<rparr>) = Inr out \<and>
      input_files out = [''a.mkv''] \<and> output_dir out = Some ''out'' \<and>
      dump_commands out = ''yes'' \<and> verbose out \<and> \<not> deinterlace out \<and>
      min_scene_length out = 30 \<and> max_concurrent_encodes out = 8 \<and>
      limit_encodes out = None \<and> ffmpeg out = ''ffmpeg'' \<and> ffprobe out = ''ffprobe'')"
proof -
  let ?raw = "(parsed_defaults [''a.mkv''] [[0, 0, 8, 8]])
      \<lparr>dump_commands := ''yes'', verbose := True, output_dir := Some ''out''\<rparr>"
  have h: "well_formed_raw ?raw"
    by (simp add: well_formed_raw_def parsed_defaults_def NonNegativeInt_def)
  from derivation_frame[OF h] obtain out where
    "parse_args ?raw = Inr out"
    "input_files out = input_files ?raw" "output_dir out = output_dir ?raw"
    "dump_commands out = dump_commands ?raw" "verbose out = verbose ?raw"
    "deinterlace out = deinterlace ?raw" "min_scene_length out = min_scene_length ?raw"
    "max_concurrent_encodes out = max_concurrent_encodes ?raw"
    "limit_encodes out = limit_encodes ?raw" "ffmpeg out = ffmpeg ?raw"
    "ffprobe out = ffprobe ?raw" by blast
  then have "parse_args ?raw = Inr out \<and>
      input_files out = [''a.mkv''] \<and> output_dir out = Some ''out'' \<and>
      dump_commands out = ''yes'' \<and> verbose out \<and> \<not> deinterlace out \<and>
      min_scene_length out = 30 \<and> max_concurrent_encodes out = 8 \<and>
      limit_encodes out = None \<and> ffmpeg out = ''ffmpeg'' \<and> ffprobe out = ''ffprobe''"
    by (simp add: parsed_defaults_def)
  with h show ?thesis by blast
qed

text \<open>
  Claim C10. A crop specification whose four components are \<^verbatim>\<open>NonNegativeInt\<close> values
  (each is returned unchanged by the \<^verbatim>\<open>NonNegativeInt\<close> constructor) has a non-negative
  \<^verbatim>\<open>crop_height\<close> and a non-negative \<^verbatim>\<open>crop_width\<close>.
\<close>

theorem crop_dimensions_non_negative:
  assumes "NonNegativeInt (top' c) = Inr (top' c)"
    and "NonNegativeInt (bottom c) = Inr (bottom c)"
    and "NonNegativeInt (left c) = Inr (left c)"
    and "NonNegativeInt (right c) = Inr (right c)"
  shows "0 \<le> crop_height c \<and> 0 \<le> crop_width c"
  using assms
  by (auto simp: NonNegativeInt_def crop_height_def crop_width_def Let_def split: if_splits)

theorem crop_dimensions_non_negative_witness:
  "NonNegativeInt (top' (CropValues_new 0 8 16 0)) = Inr 0 \<and>
   NonNegativeInt (bottom (CropValues_new 0 8 16 0)) = Inr 8 \<and>
   0 \<le> crop_height (CropValues_new 0 8 16 0) \<and> 0 \<le> crop_width (CropValues_new 0 8 16 0) \<and>
   crop_height (CropValues_new 0 8 16 0) = 8 \<and> crop_width (CropValues_new 0 8 16 0) = 16"
proof -
  have h: "NonNegativeInt (top' (CropValues_new 0 8 16 0)) = Inr (top' (CropValues_new 0 8 16 0))"
    "NonNegativeInt (bottom (CropValues_new 0 8 16 0)) = Inr (bottom (CropValues_new 0 8 16 0))"
    "NonNegativeInt (left (CropValues_new 0 8 16 0)) = Inr (left (CropValues_new 0 8 16 0))"
    "NonNegativeInt (right (CropValues_new 0 8 16 0)) = Inr (right (CropValues_new 0 8 16 0))"
    by (simp_all add: NonNegativeInt_def CropValues_new_def)
  from crop_dimensions_non_negative[OF h] h show ?thesis
    by (simp add: CropValues_new_def crop_height_def crop_width_def)
qed

end
